theory Spec2Isabelle
  imports Main
begin

section \<open>Resources (constants.py, class BaseResource)\<close>

text \<open>
  A resource is a mutable object; every method takes the object and returns the
  updated one. Time stamps (\<^verbatim>\<open>datetime\<close>) are integers (microseconds), durations
  (\<^verbatim>\<open>timedelta\<close>) too.
\<close>

record BaseResource =
  res_name :: string
  capacity :: int
  available :: int
  latest_release_time :: "int option"

definition init_resource :: "string \<Rightarrow> int \<Rightarrow> BaseResource" where
  "init_resource n c =
     \<lparr>res_name = n, capacity = c, available = c, latest_release_time = None\<rparr>"

definition is_available :: "BaseResource \<Rightarrow> bool" where
  "is_available r = (available r > 0)"

definition acquire :: "BaseResource \<Rightarrow> bool \<times> BaseResource" where
  "acquire r =
     (if is_available r then (True, r\<lparr>available := available r - 1\<rparr>) else (False, r))"

definition release :: "int \<Rightarrow> BaseResource \<Rightarrow> BaseResource" where
  "release release_time r =
     r\<lparr>available := available r + 1, latest_release_time := Some release_time\<rparr>"

text \<open>A client's sequence of method calls on one resource.\<close>

datatype resource_call = Acquire | Release int

fun call :: "resource_call \<Rightarrow> BaseResource \<Rightarrow> BaseResource" where
  "call Acquire r = snd (acquire r)"
| "call (Release t) r = release t r"

fun run_calls :: "resource_call list \<Rightarrow> BaseResource \<Rightarrow> BaseResource" where
  "run_calls [] r = r"
| "run_calls (c # cs) r = run_calls cs (call c r)"

fun count_releases :: "resource_call list \<Rightarrow> nat" where
  "count_releases [] = 0"
| "count_releases (Acquire # cs) = count_releases cs"
| "count_releases (Release t # cs) = Suc (count_releases cs)"

text \<open>No call of the sequence releases a resource that is full at that moment.\<close>

fun never_releases_full :: "resource_call list \<Rightarrow> BaseResource \<Rightarrow> bool" where
  "never_releases_full [] r = True"
| "never_releases_full (Acquire # cs) r = never_releases_full cs (call Acquire r)"
| "never_releases_full (Release t # cs) r =
     (available r < capacity r \<and> never_releases_full cs (call (Release t) r))"

section \<open>Net model (constants.py, class SimPetriNet)\<close>

text \<open>
  Places and transitions are objects compared by identity; the model identifies a
  place with its name. A marking is pm4py's \<^verbatim>\<open>Marking\<close>, a \<^verbatim>\<open>collections.Counter\<close>:
  a dictionary from places to integers in which reading an absent key gives 0
  (without inserting it) and deleting an absent key does nothing.
\<close>

type_synonym place = string

type_synonym marking = "place \<rightharpoonup> int"

text \<open>\<^verbatim>\<open>m[p]\<close> on a Counter.\<close>

definition count :: "marking \<Rightarrow> place \<Rightarrow> int" where
  "count m p = (case m p of None \<Rightarrow> 0 | Some n \<Rightarrow> n)"

text \<open>
  \<^verbatim>\<open>Marking.__eq__\<close>: the same keys, and the same value under every key.
  \<^verbatim>\<open>Marking.__le__\<close>: the keys of the left marking are keys of the right one, and
  under each of them the right value is not smaller than the left value.
\<close>

definition marking_eq :: "marking \<Rightarrow> marking \<Rightarrow> bool" where
  "marking_eq a b = (dom a = dom b \<and> (\<forall>p \<in> dom a. b p = a p))"

definition marking_le :: "marking \<Rightarrow> marking \<Rightarrow> bool" where
  "marking_le a b = (dom a \<subseteq> dom b \<and> (\<forall>p \<in> dom a. \<not> (count b p < count a p)))"

datatype SimArc = SimArc (source: string) (target: string) (weight: int)

text \<open>
  The heap of resource objects: a transition holds references (addresses) to the
  resources it requires, and a firing callback is a closure that may acquire or release
  them. The callback is called with the marking, the case id and the transition itself;
  the model gives it the marking, the case id and the heap (a transition record cannot
  hold a function of itself), and takes what it returns as the heap afterwards. The set
  of incoming (outgoing) arcs is the list of its elements in iteration order; an arc
  names its end points.
\<close>

type_synonym store = "nat \<Rightarrow> BaseResource"

record SimTransition =
  name :: string
  label :: "string option"
  duration :: int
  attributes :: "(string \<times> string) list"
  resources :: "nat list"
  on_fire_callback :: "(marking \<Rightarrow> int \<Rightarrow> store \<Rightarrow> store) option"
  in_arcs :: "SimArc list"
  out_arcs :: "SimArc list"

record SimPetriNet =
  net_name :: string
  places :: "place list"
  transitions :: "SimTransition list"
  arcs :: "SimArc list"

definition all_resources_available :: "store \<Rightarrow> SimTransition \<Rightarrow> bool" where
  "all_resources_available h t = list_all (\<lambda>r. is_available (h r)) (resources t)"

section \<open>Semantics engine (constants.py, class ClassicPetriNetSemantics)\<close>

text \<open>The loop of \<^verbatim>\<open>is_enabled\<close> over the incoming arcs.\<close>

fun is_enabled_in_arcs :: "SimArc list \<Rightarrow> marking \<Rightarrow> bool" where
  "is_enabled_in_arcs [] m = True"
| "is_enabled_in_arcs (a # as) m =
     (if count m (source a) < weight a then False else is_enabled_in_arcs as m)"

definition is_enabled :: "SimTransition \<Rightarrow> SimPetriNet \<Rightarrow> marking \<Rightarrow> bool" where
  "is_enabled t pn m =
     (if t \<in> set (transitions pn) then is_enabled_in_arcs (in_arcs t) m else False)"

text \<open>The first loop of \<^verbatim>\<open>execute\<close>: subtract, and delete the key at exactly 0.\<close>

fun execute_in_arcs :: "SimArc list \<Rightarrow> marking \<Rightarrow> marking" where
  "execute_in_arcs [] m_out = m_out"
| "execute_in_arcs (a # as) m_out =
     (let m1 = m_out(source a \<mapsto> count m_out (source a) - weight a)
      in execute_in_arcs as (if count m1 (source a) = 0 then m1(source a := None) else m1))"

text \<open>The second loop of \<^verbatim>\<open>execute\<close> and of \<^verbatim>\<open>weak_execute\<close>.\<close>

fun execute_out_arcs :: "SimArc list \<Rightarrow> marking \<Rightarrow> marking" where
  "execute_out_arcs [] m_out = m_out"
| "execute_out_arcs (a # as) m_out =
     execute_out_arcs as (m_out(target a \<mapsto> count m_out (target a) + weight a))"

definition execute :: "SimTransition \<Rightarrow> SimPetriNet \<Rightarrow> marking \<Rightarrow> marking option" where
  "execute t pn m =
     (if \<not> is_enabled t pn m then None
      else Some (execute_out_arcs (out_arcs t) (execute_in_arcs (in_arcs t) m)))"



definition enabled_transitions :: "SimPetriNet \<Rightarrow> marking \<Rightarrow> SimTransition list" where
  "enabled_transitions pn m = filter (\<lambda>t. is_enabled t pn m) (transitions pn)"

text \<open>Total weight of the arcs of a list that start, or end, at a place.\<close>

definition weight_from :: "SimArc list \<Rightarrow> place \<Rightarrow> int" where
  "weight_from as p = sum_list (map weight (filter (\<lambda>a. source a = p) as))"

definition weight_to :: "SimArc list \<Rightarrow> place \<Rightarrow> int" where
  "weight_to as p = sum_list (map weight (filter (\<lambda>a. target a = p) as))"

section \<open>Random choice, errors, runs\<close>

text \<open>
  \<^verbatim>\<open>random.choice(seq)\<close> raises IndexError on an empty sequence and otherwise returns
  \<^verbatim>\<open>seq[randbelow(len(seq))]\<close>. The random source is a stream of natural numbers
  \<open>rng\<close>, read at a position that advances by one with every draw; a draw \<open>r\<close> over a
  sequence of length \<open>n\<close> selects index \<open>r mod n\<close>. A Python set of transitions is the
  list of its elements in iteration order; the union with \<^verbatim>\<open>{None}\<close> lists None last
  (the theorems below speak of the set of candidates, not of their order).
\<close>

datatype error = IndexError | AttributeError | TypeError

datatype 'a run = Done 'a | Raise error | OutOfFuel

definition choice :: "nat \<Rightarrow> 'a list \<Rightarrow> error + 'a" where
  "choice r seq = (if seq = [] then Inl IndexError else Inr (seq ! (r mod length seq)))"

section \<open>Batch playout (basic\_playout.py)\<close>

text \<open>
  The semantics object handed to the playout is the classic semantics above. An element
  of the visited list is a marking or a transition.
\<close>

datatype visited_element = VisitedMarking marking | VisitedTransition SimTransition

definition select_transition ::
  "nat \<Rightarrow> SimTransition list \<Rightarrow> marking option \<Rightarrow> marking \<Rightarrow> bool
   \<Rightarrow> error + SimTransition option" where
  "select_transition r all_enabled_trans final_marking marking fm_leq_accepted =
     (case final_marking of
        None \<Rightarrow> choice r (map Some all_enabled_trans)
      | Some fm \<Rightarrow>
          if marking_le fm marking \<and> (marking_eq fm marking \<or> fm_leq_accepted)
          then choice r (map Some all_enabled_trans @ [None])
          else choice r (map Some all_enabled_trans))"

text \<open>
  The loop of \<^verbatim>\<open>execute_single_trace\<close>. Silent transitions do not count towards
  \<open>max_trace_length\<close>, so the loop need not end: it runs on fuel. \<^verbatim>\<open>execute\<close> returns
  None only for a transition that is not enabled, which the selection never yields; the
  model stops with an error there, where the source would go on with None as marking.
\<close>

fun execute_single_trace_loop ::
  "nat \<Rightarrow> (nat \<Rightarrow> nat) \<Rightarrow> SimPetriNet \<Rightarrow> int \<Rightarrow> marking option \<Rightarrow> bool
   \<Rightarrow> visited_element list \<Rightarrow> SimTransition list \<Rightarrow> marking \<Rightarrow> nat
   \<Rightarrow> (visited_element list \<times> marking \<times> nat) run" where
  "execute_single_trace_loop 0 rng net max_trace_length final_marking fm_leq_accepted
     visited_elements visible_transitions_visited marking pos = OutOfFuel"
| "execute_single_trace_loop (Suc fuel) rng net max_trace_length final_marking fm_leq_accepted
     visited_elements visible_transitions_visited marking pos =
     (if \<not> int (length visible_transitions_visited) < max_trace_length
      then Done (visited_elements, marking, pos)
      else if enabled_transitions net marking = []
      then Done (visited_elements @ [VisitedMarking marking], marking, pos)
      else
        (case select_transition (rng pos) (enabled_transitions net marking)
                final_marking marking fm_leq_accepted of
           Inl e \<Rightarrow> Raise e
         | Inr None \<Rightarrow> Done (visited_elements @ [VisitedMarking marking], marking, Suc pos)
         | Inr (Some tr) \<Rightarrow>
             (case execute tr net marking of
                None \<Rightarrow> Raise TypeError
              | Some marking' \<Rightarrow>
                  execute_single_trace_loop fuel rng net max_trace_length final_marking
                    fm_leq_accepted
                    (visited_elements @ [VisitedMarking marking, VisitedTransition tr])
                    (if label tr \<noteq> None then visible_transitions_visited @ [tr]
                     else visible_transitions_visited)
                    marking' (Suc pos))))"


text \<open>
  \<^verbatim>\<open>should_add_trace\<close>. With no final marking, \<^verbatim>\<open>final_marking == marking\<close> is
  evaluated by \<^verbatim>\<open>Marking.__eq__(marking, None)\<close>, which reads \<^verbatim>\<open>None.keys()\<close> and
  raises AttributeError.
\<close>

definition should_add_trace :: "marking \<Rightarrow> marking option \<Rightarrow> bool \<Rightarrow> bool \<Rightarrow> error + bool" where
  "should_add_trace marking final_marking add_only_if_fm_is_reached fm_leq_accepted =
     (if \<not> add_only_if_fm_is_reached then Inr True
      else case final_marking of
             None \<Rightarrow> Inl AttributeError
           | Some fm \<Rightarrow>
               Inr (marking_eq fm marking \<or> (marking_le fm marking \<and> fm_leq_accepted)))"

text \<open>
  An event is a dictionary; the batch log fills the activity and the time stamp (the ISO
  string of a time stamp is the time stamp here), the streaming generator also the case
  name (the pair of the generator's prefix and the case number, for the string
  \<^verbatim>\<open>prefix_number\<close>) and the attributes. A trace carries its case id (the number, for
  its decimal string).
\<close>

record Event =
  activity :: string
  timestamp :: int
  case_name :: "(string \<times> int) option"
  attrs :: "(string \<times> string) list"







section \<open>Streaming event generator (generator\_based.py, class PetriNetEventGenerator)\<close>

text \<open>
  The generator object with the fields its methods read and write. The wall clock
  (\<^verbatim>\<open>datetime.now()\<close>) is a stream of time stamps \<open>clock\<close>, read at a position that
  advances with every reading. The world of a run is the generator, the heap of
  resources and the two positions.
\<close>

record PetriNetEventGenerator =
  net :: SimPetriNet
  initial_marking :: marking
  final_marking :: "marking option"
  max_trace_length :: int
  current_case_id :: int
  current_timestamp :: int
  add_only_if_fm_is_reached :: bool
  fm_leq_accepted :: bool
  UNIQUE_ID_PREFIX :: string
  current_marking :: marking
  visible_transitions_count :: int

record world =
  generator :: PetriNetEventGenerator
  heap :: store
  rng_pos :: nat
  clock_pos :: nat

text \<open>
  The methods keep their names, without the leading underscore; \<^verbatim>\<open>__next__\<close> is
  \<open>gen_next\<close>. \<^verbatim>\<open>_create_event\<close> is only called for a transition with a label, which
  the model hands over as \<open>l\<close>.
\<close>

definition initialize_trace :: "PetriNetEventGenerator \<Rightarrow> PetriNetEventGenerator" where
  "initialize_trace g = g\<lparr>current_marking := initial_marking g, visible_transitions_count := 0\<rparr>"

definition is_trace_acceptable :: "PetriNetEventGenerator \<Rightarrow> marking \<Rightarrow> error + bool" where
  "is_trace_acceptable g marking =
     (if \<not> add_only_if_fm_is_reached g then Inr True
      else case final_marking g of
             None \<Rightarrow> Inl AttributeError
           | Some fm \<Rightarrow>
               Inr (marking_eq fm marking
                    \<or> (final_marking g \<noteq> None \<and> marking_le fm marking \<and> fm_leq_accepted g)))"

definition fire_transition ::
  "nat \<Rightarrow> PetriNetEventGenerator \<Rightarrow> SimTransition list \<Rightarrow> error + SimTransition option" where
  "fire_transition r g enabled =
     (case final_marking g of
        None \<Rightarrow> choice r (map Some enabled)
      | Some fm \<Rightarrow>
          if marking_le fm (current_marking g)
             \<and> (marking_eq fm (current_marking g) \<or> fm_leq_accepted g)
          then choice r (map Some enabled @ [None])
          else choice r (map Some enabled))"

definition should_start_new_trace :: "PetriNetEventGenerator \<Rightarrow> bool" where
  "should_start_new_trace g =
     (visible_transitions_count g \<ge> max_trace_length g
      \<or> enabled_transitions (net g) (current_marking g) = [])"

text \<open>\<open>now\<close> is the reading of the wall clock, taken only when the trace is rejected.\<close>

definition handle_invalid_trace ::
  "int \<Rightarrow> PetriNetEventGenerator \<Rightarrow> error + (bool \<times> PetriNetEventGenerator)" where
  "handle_invalid_trace now g =
     (case is_trace_acceptable g (current_marking g) of
        Inl e \<Rightarrow> Inl e
      | Inr ok \<Rightarrow>
          if \<not> ok then Inr (True, (initialize_trace g)\<lparr>current_timestamp := now\<rparr>)
          else Inr (False, g))"

definition start_new_trace :: "PetriNetEventGenerator \<Rightarrow> PetriNetEventGenerator" where
  "start_new_trace g = initialize_trace (g\<lparr>current_case_id := current_case_id g + 1\<rparr>)"

definition handle_enabled_transition :: "PetriNetEventGenerator \<Rightarrow> SimTransition list" where
  "handle_enabled_transition g = enabled_transitions (net g) (current_marking g)"

definition create_event ::
  "PetriNetEventGenerator \<Rightarrow> SimTransition \<Rightarrow> string \<Rightarrow> Event \<times> PetriNetEventGenerator" where
  "create_event g tr l =
     (let g1 = g\<lparr>visible_transitions_count := visible_transitions_count g + 1,
                 current_timestamp := current_timestamp g + duration tr\<rparr>
      in (\<lparr>activity = l, timestamp = current_timestamp g1,
           case_name = Some (UNIQUE_ID_PREFIX g1, current_case_id g1),
           attrs = map (\<lambda>(key, v). (''attr:'' @ key, v)) (attributes tr)\<rparr>, g1))"

text \<open>
  \<^verbatim>\<open>_execute_transition\<close>: the event returned (if any), the generator and the heap
  afterwards. The callback receives the new marking and the case id and acts on the
  heap. As in the batch loop, the model stops with an error where \<^verbatim>\<open>execute\<close> returns
  None.
\<close>

definition execute_transition ::
  "PetriNetEventGenerator \<Rightarrow> store \<Rightarrow> SimTransition option
   \<Rightarrow> error + (Event option \<times> PetriNetEventGenerator \<times> store)" where
  "execute_transition g h sel =
     (case sel of
        None \<Rightarrow> Inr (None, start_new_trace g, h)
      | Some tr \<Rightarrow>
          if \<not> all_resources_available h tr then Inr (None, g, h)
          else
            (case execute tr (net g) (current_marking g) of
               None \<Rightarrow> Inl TypeError
             | Some m' \<Rightarrow>
                 (let g1 = g\<lparr>current_marking := m'\<rparr>;
                      h1 = (case on_fire_callback tr of
                              None \<Rightarrow> h
                            | Some cb \<Rightarrow> cb (current_marking g1) (current_case_id g1) h)
                  in case label tr of
                       None \<Rightarrow> Inr (None, g1, h1)
                     | Some l \<Rightarrow>
                         (let (e, g2) = create_event g1 tr l in Inr (Some e, g2, h1)))))"

text \<open>
  One pass through the body of the \<^verbatim>\<open>while True\<close> of \<^verbatim>\<open>__next__\<close>, from the state
  after the test of \<^verbatim>\<open>_should_start_new_trace\<close>: the event returned, or None when the
  loop goes round again.
\<close>

definition next_select_and_fire ::
  "(nat \<Rightarrow> nat) \<Rightarrow> world \<Rightarrow> error + (Event option \<times> world)" where
  "next_select_and_fire rng w =
     (let enabled = handle_enabled_transition (generator w)
      in if enabled = []
         then Inr (None, w\<lparr>generator := start_new_trace (generator w)\<rparr>)
         else
           (case fire_transition (rng (rng_pos w)) (generator w) enabled of
              Inl e \<Rightarrow> Inl e
            | Inr current_transition \<Rightarrow>
                (case execute_transition (generator w) (heap w) current_transition of
                   Inl e \<Rightarrow> Inl e
                 | Inr (event_yield, g', h') \<Rightarrow>
                     Inr (event_yield,
                          w\<lparr>generator := g', heap := h', rng_pos := Suc (rng_pos w)\<rparr>))))"

definition next_iteration ::
  "(nat \<Rightarrow> nat) \<Rightarrow> (nat \<Rightarrow> int) \<Rightarrow> world \<Rightarrow> error + (Event option \<times> world)" where
  "next_iteration rng clock w =
     (if should_start_new_trace (generator w)
      then
        (case handle_invalid_trace (clock (clock_pos w)) (generator w) of
           Inl e \<Rightarrow> Inl e
         | Inr (True, g') \<Rightarrow> Inr (None, w\<lparr>generator := g', clock_pos := Suc (clock_pos w)\<rparr>)
         | Inr (False, g') \<Rightarrow> next_select_and_fire rng (w\<lparr>generator := start_new_trace g'\<rparr>))
      else next_select_and_fire rng w)"



text \<open>\<^verbatim>\<open>PetriNetEventGenerator.__init__\<close>, with the prefix drawn by \<^verbatim>\<open>uuid4\<close> as an argument.\<close>

definition init_generator ::
  "SimPetriNet \<Rightarrow> marking \<Rightarrow> marking option \<Rightarrow> int \<Rightarrow> int \<Rightarrow> int \<Rightarrow> bool \<Rightarrow> bool \<Rightarrow> string
   \<Rightarrow> PetriNetEventGenerator" where
  "init_generator n im fm max_len initial_case_id initial_timestamp add_only leq prefix =
     initialize_trace
       \<lparr>net = n, initial_marking = im, final_marking = fm, max_trace_length = max_len,
        current_case_id = initial_case_id, current_timestamp = initial_timestamp,
        add_only_if_fm_is_reached = add_only, fm_leq_accepted = leq,
        UNIQUE_ID_PREFIX = prefix, current_marking = Map.empty,
        visible_transitions_count = 0\<rparr>"

section \<open>Example nets\<close>

text \<open>
  The net of the specification's scenario: place P1, transition T (label A, duration 10),
  place P2, arcs of weight 1.
\<close>

definition T_A :: SimTransition where
  "T_A = \<lparr>name = ''T'', label = Some ''A'', duration = 10, attributes = [], resources = [],
     on_fire_callback = None, in_arcs = [SimArc ''P1'' ''T'' 1],
     out_arcs = [SimArc ''T'' ''P2'' 1]\<rparr>"

definition net_A :: SimPetriNet where
  "net_A = \<lparr>net_name = ''N'', places = [''P1'', ''P2''], transitions = [T_A],
     arcs = [SimArc ''P1'' ''T'' 1, SimArc ''T'' ''P2'' 1]\<rparr>"

text \<open>A transition that only consumes.\<close>

definition T_sink :: SimTransition where
  "T_sink = \<lparr>name = ''T'', label = Some ''A'', duration = 10, attributes = [], resources = [],
     on_fire_callback = None, in_arcs = [SimArc ''P1'' ''T'' 1], out_arcs = []\<rparr>"

definition net_sink :: SimPetriNet where
  "net_sink = \<lparr>net_name = ''N'', places = [''P1''], transitions = [T_sink],
     arcs = [SimArc ''P1'' ''T'' 1]\<rparr>"



text \<open>The scenario's transition, requiring the resource at address 0.\<close>

definition T_res :: SimTransition where
  "T_res = T_A\<lparr>resources := [0]\<rparr>"

definition net_res :: SimPetriNet where
  "net_res = net_A\<lparr>transitions := [T_res]\<rparr>"

text \<open>
  A generator over the scenario's net that requires the final marking with two tokens in
  P2, which no run reaches, and its world; the same generator as another process would
  build it (another prefix, another starting time); the generator that accepts every
  trace.
\<close>

definition gen_A :: PetriNetEventGenerator where
  "gen_A = init_generator net_A [''P1'' \<mapsto> 1] (Some [''P2'' \<mapsto> 2]) 10000 0 0 True False ''run1''"




text \<open>The scenario with the required resource exhausted (capacity 0).\<close>

definition heap_exhausted :: store where
  "heap_exhausted = (\<lambda>a. init_resource ''robot'' 0)"

definition gen_res :: PetriNetEventGenerator where
  "gen_res = init_generator net_res [''P1'' \<mapsto> 1] (Some [''P2'' \<mapsto> 1]) 10000 0 0 False False ''run1''"

definition world_res :: world where
  "world_res = \<lparr>generator = gen_res, heap = heap_exhausted, rng_pos = 0, clock_pos = 0\<rparr>"

section \<open>Observations of a run\<close>

text \<open>
  What two runs are compared on: a generator without its cursor time stamp and its
  prefix, a world without the clock position, and an event without its time stamp and
  the prefix of its case name (activity, case number, attributes).
\<close>

definition untimed :: "PetriNetEventGenerator \<Rightarrow> PetriNetEventGenerator" where
  "untimed g = g\<lparr>current_timestamp := 0, UNIQUE_ID_PREFIX := []\<rparr>"

definition untimed_world :: "world \<Rightarrow> world" where
  "untimed_world w = w\<lparr>generator := untimed (generator w), clock_pos := 0\<rparr>"


section \<open>Properties of resources\<close>

lemma capacity_call: "capacity (call c r) = capacity r"
  by (cases c) (simp_all add: acquire_def release_def)

lemma capacity_run_calls: "capacity (run_calls cs r) = capacity r"
  by (induction cs arbitrary: r) (simp_all add: capacity_call)

lemma available_call_nonneg: "0 \<le> available r \<Longrightarrow> 0 \<le> available (call c r)"
  by (cases c) (simp_all add: acquire_def release_def is_available_def)

lemma available_run_calls_nonneg: "0 \<le> available r \<Longrightarrow> 0 \<le> available (run_calls cs r)"
  by (induction cs arbitrary: r) (simp_all add: available_call_nonneg)

lemma available_run_calls_upper:
  "available (run_calls cs r) \<le> available r + int (count_releases cs)"
proof (induction cs arbitrary: r)
  case Nil
  show ?case by simp
next
  case (Cons c cs)
  show ?case
  proof (cases c)
    case Acquire
    have "available (call Acquire r) \<le> available r"
      by (simp add: acquire_def)
    with Cons [of "call Acquire r"] Acquire show ?thesis by simp
  next
    case (Release t)
    have "available (call (Release t) r) = available r + 1"
      by (simp add: release_def)
    with Cons [of "call (Release t) r"] Release show ?thesis by simp
  qed
qed

lemma available_run_calls_capped:
  "available r \<le> capacity r \<Longrightarrow> never_releases_full cs r \<Longrightarrow>
   available (run_calls cs r) \<le> capacity r"
proof (induction cs arbitrary: r)
  case Nil
  then show ?case by simp
next
  case (Cons c cs)
  show ?case
  proof (cases c)
    case Acquire
    have "available (call Acquire r) \<le> capacity (call Acquire r)"
      using Cons.prems(1) by (simp add: acquire_def)
    moreover have "never_releases_full cs (call Acquire r)"
      using Cons.prems(2) Acquire by simp
    ultimately have "available (run_calls cs (call Acquire r)) \<le> capacity (call Acquire r)"
      by (rule Cons.IH)
    then show ?thesis using Acquire by (simp add: capacity_call del: call.simps)
  next
    case (Release t)
    have "available (call (Release t) r) \<le> capacity (call (Release t) r)"
      using Cons.prems(2) Release by (simp add: release_def)
    moreover have "never_releases_full cs (call (Release t) r)"
      using Cons.prems(2) Release by simp
    ultimately have
      "available (run_calls cs (call (Release t) r)) \<le> capacity (call (Release t) r)"
      by (rule Cons.IH)
    then show ?thesis using Release by (simp add: capacity_call del: call.simps)
  qed
qed

text \<open>
  C1, as the specification states it, fails: \<^verbatim>\<open>release\<close> adds 1 with no cap, so one
  release on a freshly built resource of capacity 1 leaves 2 available; and a resource
  built with a negative capacity starts below 0.
\<close>

theorem release_exceeds_capacity:
  "\<not> (available (run_calls [Release 0] (init_resource ''robot'' 1))
       \<le> capacity (run_calls [Release 0] (init_resource ''robot'' 1)))
   \<and> \<not> (0 \<le> available (run_calls [] (init_resource ''robot'' (- 1))))"
  by (simp add: init_resource_def release_def)

text \<open>
  C1 (amended). For a resource built with capacity \<open>c \<ge> 0\<close>, after any sequence of
  acquire and release calls: the capacity is still \<open>c\<close>, \<open>0 \<le> available\<close>, and
  \<open>available\<close> is at most \<open>c\<close> plus the number of releases; it is at most \<open>c\<close> when
  no release was called on a full resource. An acquire at \<open>available = 0\<close> returns
  False and changes nothing; a release adds exactly 1.
\<close>

theorem resource_invariant:
  assumes "0 \<le> c"
  shows "capacity (run_calls cs (init_resource n c)) = c
    \<and> 0 \<le> available (run_calls cs (init_resource n c))
    \<and> available (run_calls cs (init_resource n c)) \<le> c + int (count_releases cs)
    \<and> (never_releases_full cs (init_resource n c) \<longrightarrow>
         available (run_calls cs (init_resource n c)) \<le> c)
    \<and> (available r = 0 \<longrightarrow> acquire r = (False, r))
    \<and> available (release t r) = available r + 1"
proof -
  let ?r0 = "init_resource n c"
  have r0: "capacity ?r0 = c" "available ?r0 = c"
    by (simp_all add: init_resource_def)
  have 1: "capacity (run_calls cs ?r0) = c"
    by (simp add: capacity_run_calls r0)
  have 2: "0 \<le> available (run_calls cs ?r0)"
    using assms by (intro available_run_calls_nonneg) (simp add: r0)
  have 3: "available (run_calls cs ?r0) \<le> c + int (count_releases cs)"
    using available_run_calls_upper [of cs ?r0] by (simp add: r0)
  have 4: "never_releases_full cs ?r0 \<longrightarrow> available (run_calls cs ?r0) \<le> c"
    using available_run_calls_capped [of ?r0 cs] by (simp add: r0)
  have 5: "available r = 0 \<longrightarrow> acquire r = (False, r)"
    by (simp add: acquire_def is_available_def)
  have 6: "available (release t r) = available r + 1"
    by (simp add: release_def)
  from 1 2 3 4 5 6 show ?thesis by blast
qed

theorem resource_invariant_witness:
  "(0::int) \<le> 1
   \<and> never_releases_full [Acquire, Acquire, Release 5] (init_resource ''robot'' 1)
   \<and> available (run_calls [Acquire, Acquire, Release 5] (init_resource ''robot'' 1)) = 1
   \<and> capacity (run_calls [Acquire, Acquire, Release 5] (init_resource ''robot'' 1)) = 1
   \<and> acquire (snd (acquire (init_resource ''robot'' 1)))
       = (False, snd (acquire (init_resource ''robot'' 1)))"
  using resource_invariant [of 1 "[Acquire, Acquire, Release 5]" "''robot''"
      "snd (acquire (init_resource ''robot'' 1))" 5]
  by (simp add: init_resource_def acquire_def release_def is_available_def)

section \<open>Properties of the semantics engine\<close>

lemma is_enabled_in_arcs_iff:
  "is_enabled_in_arcs as m \<longleftrightarrow> (\<forall>a \<in> set as. weight a \<le> count m (source a))"
  by (induction as) auto

lemma count_upd: "count (m(p \<mapsto> v)) q = (if q = p then v else count m q)"
  by (simp add: count_def)


lemma count_execute_in_arcs:
  "count (execute_in_arcs as m) p = count m p - weight_from as p"
proof (induction as arbitrary: m)
  case Nil
  show ?case by (simp add: weight_from_def)
next
  case (Cons a as)
  let ?m1 = "m(source a \<mapsto> count m (source a) - weight a)"
  let ?m2 = "if count ?m1 (source a) = 0 then ?m1(source a := None) else ?m1"
  have 1: "count (execute_in_arcs (a # as) m) p = count ?m2 p - weight_from as p"
    by (simp add: Cons.IH Let_def)
  have 2: "count ?m2 p = count m p - (if source a = p then weight a else 0)"
    by (simp add: count_def)
  have 3: "weight_from (a # as) p = (if source a = p then weight a else 0) + weight_from as p"
    by (simp add: weight_from_def)
  show ?case unfolding 1 2 3 by simp
qed

lemma count_execute_out_arcs:
  "count (execute_out_arcs as m) p = count m p + weight_to as p"
proof (induction as arbitrary: m)
  case Nil
  show ?case by (simp add: weight_to_def)
next
  case (Cons a as)
  have 1: "count (execute_out_arcs (a # as) m) p
      = count (m(target a \<mapsto> count m (target a) + weight a)) p + weight_to as p"
    unfolding execute_out_arcs.simps by (rule Cons.IH)
  have 2: "count (m(target a \<mapsto> count m (target a) + weight a)) p
      = count m p + (if target a = p then weight a else 0)"
    by (simp add: count_def)
  have 3: "weight_to (a # as) p = (if target a = p then weight a else 0) + weight_to as p"
    by (simp add: weight_to_def)
  show ?case unfolding 1 2 3 by simp
qed

lemma execute_in_arcs_frame:
  "p \<notin> source ` set as \<Longrightarrow> execute_in_arcs as m p = m p"
  by (induction as arbitrary: m) (auto simp: Let_def)


lemma execute_out_arcs_frame:
  "p \<notin> target ` set as \<Longrightarrow> execute_out_arcs as m p = m p"
  by (induction as arbitrary: m) auto

lemma execute_in_arcs_no_zero:
  "p \<in> source ` set as \<Longrightarrow> execute_in_arcs as m p \<noteq> Some 0"
proof (induction as arbitrary: m)
  case Nil
  then show ?case by simp
next
  case (Cons a as)
  show ?case
  proof (cases "p \<in> source ` set as")
    case True
    then show ?thesis by (simp add: Cons.IH Let_def)
  next
    case False
    with Cons.prems have p: "p = source a" by simp
    show ?thesis
      using False by (simp add: execute_in_arcs_frame Let_def p count_upd)
  qed
qed



text \<open>
  C2. \<^verbatim>\<open>is_enabled(t, pn, m)\<close> is true if and only if \<open>t\<close> is one of the net's
  transitions and, for every incoming arc of \<open>t\<close>, the count of \<open>m\<close> at the arc's source
  place (0 for a place absent from the marking) is at least the arc's weight.
\<close>

theorem is_enabled_iff:
  "is_enabled t pn m \<longleftrightarrow>
     t \<in> set (transitions pn) \<and> (\<forall>a \<in> set (in_arcs t). weight a \<le> count m (source a))"
  by (simp add: is_enabled_def is_enabled_in_arcs_iff)

theorem is_enabled_iff_witness:
  "is_enabled T_A net_A [''P1'' \<mapsto> 1] \<and> T_A \<in> set (transitions net_A)
   \<and> \<not> is_enabled T_A net_A Map.empty \<and> \<not> is_enabled T_sink net_A [''P1'' \<mapsto> 1]"
  using is_enabled_iff [of T_A net_A "[''P1'' \<mapsto> 1]"] is_enabled_iff [of T_A net_A Map.empty]
    is_enabled_iff [of T_sink net_A "[''P1'' \<mapsto> 1]"]
  by (simp add: T_A_def net_A_def T_sink_def count_def)

text \<open>
  C3. \<^verbatim>\<open>execute(t, pn, m)\<close> returns None exactly when \<open>t\<close> is not enabled. Otherwise it
  returns the marking the two loops compute: the count of every place is its old count
  minus the weights of the incoming arcs that start there plus the weights of the outgoing
  arcs that end there, and a source place that is not also a target place is never left in
  the mapping with count 0. A returned empty marking is a success, never the failure
  result.
\<close>

theorem execute_result:
  "(execute t pn m = None \<longleftrightarrow> \<not> is_enabled t pn m)
   \<and> (is_enabled t pn m \<longrightarrow>
       (\<exists>m'. execute t pn m = Some m'
          \<and> m' = execute_out_arcs (out_arcs t) (execute_in_arcs (in_arcs t) m)
          \<and> (\<forall>p. count m' p = count m p - weight_from (in_arcs t) p + weight_to (out_arcs t) p)
          \<and> (\<forall>p. p \<in> source ` set (in_arcs t) \<longrightarrow> p \<notin> target ` set (out_arcs t) \<longrightarrow>
                 m' p \<noteq> Some 0)))
   \<and> (execute t pn m = Some Map.empty \<longrightarrow> is_enabled t pn m)"
proof -
  let ?m' = "execute_out_arcs (out_arcs t) (execute_in_arcs (in_arcs t) m)"
  have 1: "execute t pn m = None \<longleftrightarrow> \<not> is_enabled t pn m"
    by (simp add: execute_def)
  have 2: "count ?m' p = count m p - weight_from (in_arcs t) p + weight_to (out_arcs t) p" for p
    by (simp add: count_execute_out_arcs count_execute_in_arcs)
  have 3: "?m' p \<noteq> Some 0"
    if "p \<in> source ` set (in_arcs t)" "p \<notin> target ` set (out_arcs t)" for p
    using that by (simp add: execute_out_arcs_frame execute_in_arcs_no_zero)
  have 4: "is_enabled t pn m \<Longrightarrow> execute t pn m = Some ?m'"
    by (simp add: execute_def)
  have 5: "execute t pn m = Some Map.empty \<longrightarrow> is_enabled t pn m"
    by (simp add: execute_def)
  from 1 2 3 4 5 show ?thesis by blast
qed

theorem execute_result_witness:
  "is_enabled T_sink net_sink [''P1'' \<mapsto> 1]
   \<and> execute T_sink net_sink [''P1'' \<mapsto> 1] = Some Map.empty
   \<and> execute T_sink net_sink Map.empty = None
   \<and> execute T_sink net_sink Map.empty \<noteq> execute T_sink net_sink [''P1'' \<mapsto> 1]
   \<and> execute T_A net_A [''P1'' \<mapsto> 1] = Some [''P2'' \<mapsto> 1]"
  using execute_result [of T_sink net_sink "[''P1'' \<mapsto> 1]"]
    execute_result [of T_sink net_sink Map.empty]
  by (simp add: T_sink_def net_sink_def T_A_def net_A_def execute_def is_enabled_def count_def)

text \<open>
  C7. When \<open>t\<close> is enabled, the marking returned by \<^verbatim>\<open>execute\<close> gives every place that is
  neither the source of an incoming arc of \<open>t\<close> nor the target of an outgoing arc of \<open>t\<close>
  the entry, and so the token count, it has in \<open>m\<close>.
\<close>

theorem execute_frame:
  assumes "is_enabled t pn m"
    and "p \<notin> source ` set (in_arcs t)"
    and "p \<notin> target ` set (out_arcs t)"
  shows "\<exists>m'. execute t pn m = Some m' \<and> count m' p = count m p \<and> m' p = m p"
proof -
  let ?m' = "execute_out_arcs (out_arcs t) (execute_in_arcs (in_arcs t) m)"
  have "execute t pn m = Some ?m'"
    using assms(1) by (simp add: execute_def)
  moreover have "?m' p = m p"
    using assms(2,3) by (simp add: execute_out_arcs_frame execute_in_arcs_frame)
  moreover from this have "count ?m' p = count m p"
    by (simp add: count_def)
  ultimately show ?thesis by blast
qed

theorem execute_frame_witness:
  "is_enabled T_A net_A [''P1'' \<mapsto> 1, ''P3'' \<mapsto> 4]
   \<and> ''P3'' \<notin> source ` set (in_arcs T_A) \<and> ''P3'' \<notin> target ` set (out_arcs T_A)
   \<and> (\<exists>m'. execute T_A net_A [''P1'' \<mapsto> 1, ''P3'' \<mapsto> 4] = Some m' \<and> count m' ''P3'' = 4)"
proof -
  have e: "is_enabled T_A net_A [''P1'' \<mapsto> 1, ''P3'' \<mapsto> 4]"
    by (simp add: T_A_def net_A_def is_enabled_def count_def)
  have s: "''P3'' \<notin> source ` set (in_arcs T_A)"
    by (simp add: T_A_def)
  have t: "''P3'' \<notin> target ` set (out_arcs T_A)"
    by (simp add: T_A_def)
  have c: "count [''P1'' \<mapsto> 1, ''P3'' \<mapsto> 4] ''P3'' = 4"
    by (simp add: count_def)
  from execute_frame [OF e s t] e s t show ?thesis
    unfolding c by blast
qed




section \<open>Properties of the selection and of the acceptance predicates\<close>

lemma choice_outcomes: "{x. \<exists>r. choice r xs = Inr x} = set xs"
proof (intro set_eqI iffI)
  fix x assume "x \<in> {x. \<exists>r. choice r xs = Inr x}"
  then obtain r where r: "choice r xs = Inr x" by blast
  then have ne: "xs \<noteq> []" by (auto simp: choice_def split: if_splits)
  then have "r mod length xs < length xs" by simp
  moreover have "x = xs ! (r mod length xs)" using r ne by (simp add: choice_def)
  ultimately show "x \<in> set xs" by simp
next
  fix x assume "x \<in> set xs"
  then obtain i where i: "i < length xs" "xs ! i = x" by (auto simp: in_set_conv_nth)
  then have "choice i xs = Inr x" by (auto simp: choice_def)
  then show "x \<in> {x. \<exists>r. choice r xs = Inr x}" by blast
qed

lemma select_transition_choice:
  "select_transition r en fm m leq =
     choice r (map Some en @
       (if \<exists>f. fm = Some f \<and> marking_le f m \<and> (marking_eq f m \<or> leq) then [None] else []))"
  by (cases fm) (auto simp: select_transition_def)

lemma fire_transition_select:
  "fire_transition r g en = select_transition r en (final_marking g) (current_marking g) (fm_leq_accepted g)"
  by (simp add: fire_transition_def select_transition_def)




text \<open>
  C10. With a final marking provided, \<^verbatim>\<open>should_add_trace\<close> and
  \<^verbatim>\<open>_is_trace_acceptable\<close> of a generator with the same final marking and flags return
  the same boolean for every marking.
\<close>

theorem acceptance_predicates_agree:
  assumes "final_marking g = Some fm"
  shows "should_add_trace m (final_marking g) (add_only_if_fm_is_reached g) (fm_leq_accepted g)
           = is_trace_acceptable g m
         \<and> (\<exists>b. is_trace_acceptable g m = Inr b)"
  using assms by (auto simp: should_add_trace_def is_trace_acceptable_def)

theorem acceptance_predicates_agree_witness:
  "final_marking gen_A = Some [''P2'' \<mapsto> 2]
   \<and> should_add_trace [''P2'' \<mapsto> 2] (Some [''P2'' \<mapsto> 2]) True False = Inr True
   \<and> is_trace_acceptable gen_A [''P2'' \<mapsto> 2] = Inr True
   \<and> should_add_trace [''P2'' \<mapsto> 1] (Some [''P2'' \<mapsto> 2]) True False = Inr False
   \<and> is_trace_acceptable gen_A [''P2'' \<mapsto> 1] = Inr False"
proof -
  have f: "final_marking gen_A = Some [''P2'' \<mapsto> 2]"
    by (simp add: gen_A_def init_generator_def initialize_trace_def)
  have flags: "add_only_if_fm_is_reached gen_A" "\<not> fm_leq_accepted gen_A"
    by (simp_all add: gen_A_def init_generator_def initialize_trace_def)
  have a: "should_add_trace [''P2'' \<mapsto> 2] (Some [''P2'' \<mapsto> 2]) True False = Inr True"
    by (simp add: should_add_trace_def marking_eq_def)
  have b: "should_add_trace [''P2'' \<mapsto> 1] (Some [''P2'' \<mapsto> 2]) True False = Inr False"
    by (simp add: should_add_trace_def marking_eq_def)
  from acceptance_predicates_agree [OF f, of "[''P2'' \<mapsto> 2]"]
    acceptance_predicates_agree [OF f, of "[''P2'' \<mapsto> 1]"] f a b flags
  show ?thesis by (simp add: should_add_trace_def)
qed

section \<open>The error branches of the loops are not reached\<close>

text \<open>
  A selected transition is an enabled one, so \<^verbatim>\<open>execute\<close> returns a marking for it and
  the selection is never made from an empty list: the batch executor raises nothing, and a
  pass of \<^verbatim>\<open>__next__\<close> raises nothing after the acceptance test.
\<close>

lemma choice_in_set: "choice r xs = Inr x \<Longrightarrow> x \<in> set xs"
  using choice_outcomes [of xs] by blast

lemma choice_nonempty: "xs \<noteq> [] \<Longrightarrow> \<exists>x. choice r xs = Inr x"
  by (simp add: choice_def)

lemma select_transition_in_enabled:
  "select_transition r en fm m leq = Inr (Some tr) \<Longrightarrow> tr \<in> set en"
  by (auto simp: select_transition_choice dest!: choice_in_set split: if_splits)

lemma select_transition_nonempty:
  "en \<noteq> [] \<Longrightarrow> \<exists>x. select_transition r en fm m leq = Inr x"
  by (simp add: select_transition_choice choice_def)

lemma enabled_executes:
  "tr \<in> set (enabled_transitions pn m) \<Longrightarrow> \<exists>m'. execute tr pn m = Some m'"
  by (simp add: enabled_transitions_def execute_def)

lemma execute_single_trace_loop_no_raise:
  "execute_single_trace_loop fuel rng pn max_len fm leq visited visible m pos \<noteq> Raise e"
proof (induction fuel arbitrary: visited visible m pos)
  case 0
  show ?case by simp
next
  case (Suc fuel)
  show ?case
  proof (cases "int (length visible) < max_len \<and> enabled_transitions pn m \<noteq> []")
    case False
    then show ?thesis by auto
  next
    case True
    then obtain x where x: "select_transition (rng pos) (enabled_transitions pn m) fm m leq = Inr x"
      using select_transition_nonempty by blast
    show ?thesis
    proof (cases x)
      case None
      with True x show ?thesis by simp
    next
      case (Some tr)
      with x have "tr \<in> set (enabled_transitions pn m)"
        by (auto dest: select_transition_in_enabled)
      then obtain m' where "execute tr pn m = Some m'"
        using enabled_executes by blast
      with True x Some Suc.IH show ?thesis by simp
    qed
  qed
qed

lemma next_select_and_fire_no_raise: "next_select_and_fire rng w \<noteq> Inl e"
proof (cases "handle_enabled_transition (generator w) = []")
  case True
  then show ?thesis by (simp add: next_select_and_fire_def)
next
  case ne: False
  let ?en = "handle_enabled_transition (generator w)"
  from ne obtain x where x: "fire_transition (rng (rng_pos w)) (generator w) ?en = Inr x"
    unfolding fire_transition_select using select_transition_nonempty by blast
  have "\<exists>res. execute_transition (generator w) (heap w) x = Inr res"
  proof (cases x)
    case None
    then show ?thesis by (simp add: execute_transition_def)
  next
    case (Some tr)
    with x have "tr \<in> set ?en"
      unfolding fire_transition_select by (auto dest: select_transition_in_enabled)
    then obtain m' where "execute tr (net (generator w)) (current_marking (generator w)) = Some m'"
      unfolding handle_enabled_transition_def using enabled_executes by blast
    with Some show ?thesis
      by (simp add: execute_transition_def create_event_def Let_def split: option.splits)
  qed
  then obtain res where "execute_transition (generator w) (heap w) x = Inr res" by blast
  with ne x show ?thesis
    by (cases res) (simp add: next_select_and_fire_def)
qed

section \<open>Properties of the resource check\<close>

text \<open>
  C8. When a required resource of the selected transition is unavailable,
  \<^verbatim>\<open>_execute_transition\<close> returns no event and leaves the generator and the resources
  as they are, without an error; the pass of \<^verbatim>\<open>__next__\<close> in which that happens on a
  running trace changes nothing but the position of the random source.
\<close>

theorem unavailable_resource_skips:
  assumes "\<not> all_resources_available (heap w) tr"
  shows "execute_transition (generator w) (heap w) (Some tr) = Inr (None, generator w, heap w)
    \<and> (\<not> should_start_new_trace (generator w)
        \<and> fire_transition (rng (rng_pos w)) (generator w)
             (handle_enabled_transition (generator w)) = Inr (Some tr) \<longrightarrow>
       next_iteration rng clock w = Inr (None, w\<lparr>rng_pos := Suc (rng_pos w)\<rparr>))"
proof -
  have 1: "execute_transition (generator w) (heap w) (Some tr) = Inr (None, generator w, heap w)"
    using assms by (simp add: execute_transition_def)
  have 2: "next_iteration rng clock w = Inr (None, w\<lparr>rng_pos := Suc (rng_pos w)\<rparr>)"
    if s: "\<not> should_start_new_trace (generator w)"
      and f: "fire_transition (rng (rng_pos w)) (generator w)
             (handle_enabled_transition (generator w)) = Inr (Some tr)"
  proof -
    have ne: "handle_enabled_transition (generator w) \<noteq> []"
      using s by (simp add: should_start_new_trace_def handle_enabled_transition_def)
    have "next_iteration rng clock w = next_select_and_fire rng w"
      using s by (simp add: next_iteration_def)
    also have "\<dots> = Inr (None, w\<lparr>generator := generator w, heap := heap w,
                                 rng_pos := Suc (rng_pos w)\<rparr>)"
      using ne f 1 by (simp add: next_select_and_fire_def Let_def)
    finally show ?thesis by simp
  qed
  from 1 2 show ?thesis by blast
qed

theorem unavailable_resource_skips_witness:
  "\<not> all_resources_available (heap world_res) T_res
   \<and> \<not> should_start_new_trace (generator world_res)
   \<and> fire_transition 0 (generator world_res) (handle_enabled_transition (generator world_res))
       = Inr (Some T_res)
   \<and> execute_transition (generator world_res) (heap world_res) (Some T_res)
       = Inr (None, generator world_res, heap world_res)
   \<and> next_iteration (\<lambda>k. 0) (\<lambda>k. 0) world_res = Inr (None, world_res\<lparr>rng_pos := Suc 0\<rparr>)"
proof -
  have u: "\<not> all_resources_available (heap world_res) T_res"
    by (simp add: world_res_def heap_exhausted_def T_res_def all_resources_available_def
        is_available_def init_resource_def)
  have g: "net (generator world_res) = net_res"
    "current_marking (generator world_res) = [''P1'' \<mapsto> 1]"
    "final_marking (generator world_res) = Some [''P2'' \<mapsto> 1]"
    "visible_transitions_count (generator world_res) = 0"
    "max_trace_length (generator world_res) = 10000"
    "fm_leq_accepted (generator world_res) = False"
    by (simp_all add: world_res_def gen_res_def init_generator_def initialize_trace_def)
  have en: "enabled_transitions net_res [''P1'' \<mapsto> 1] = [T_res]"
    by (simp add: enabled_transitions_def net_res_def net_A_def is_enabled_def T_res_def
        T_A_def count_def)
  have s: "\<not> should_start_new_trace (generator world_res)"
    by (simp add: should_start_new_trace_def g en)
  have f: "fire_transition 0 (generator world_res)
      (handle_enabled_transition (generator world_res)) = Inr (Some T_res)"
    by (simp add: fire_transition_def handle_enabled_transition_def g en marking_le_def
        choice_def)
  have p: "rng_pos world_res = 0"
    by (simp add: world_res_def)
  from unavailable_resource_skips [OF u, of "\<lambda>k. 0" "\<lambda>k. 0"] u s f p
  show ?thesis by simp
qed

section \<open>Properties of the batch playout\<close>







section \<open>Independence of the wall clock\<close>

lemma untimed_should_start [simp]:
  "should_start_new_trace (untimed g) = should_start_new_trace g"
  by (simp add: should_start_new_trace_def untimed_def)

lemma untimed_handle_enabled [simp]:
  "handle_enabled_transition (untimed g) = handle_enabled_transition g"
  by (simp add: handle_enabled_transition_def untimed_def)

lemma untimed_fire [simp]:
  "fire_transition r (untimed g) en = fire_transition r g en"
  by (simp add: fire_transition_def untimed_def split: option.splits)






lemma untimed_world_simps [simp]:
  "generator (untimed_world w) = untimed (generator w)"
  "heap (untimed_world w) = heap w"
  "rng_pos (untimed_world w) = rng_pos w"
  "clock_pos (untimed_world w) = 0"
  by (simp_all add: untimed_world_def)











lemma start_new_trace_flag [simp]:
  "add_only_if_fm_is_reached (start_new_trace g) = add_only_if_fm_is_reached g"
  by (simp add: start_new_trace_def initialize_trace_def)












end
